theory Spec2Isabelle
  imports Complex_Main
begin

section \<open>JavaScript values used by app.js\<close>

text \<open>
  Numbers. Every number the program computes is an integer or \<open>NaN\<close>: \<open>parseInt\<close> yields
  an integer or \<open>NaN\<close>, and the two divisions of the source are rounded at once
  (\<open>Math.round(totalSec / 60)\<close>, \<open>Math.floor(minutes / 5)\<close>). Integers are exact here
  (a double is exact up to \<open>2 ^ 53\<close>). Every comparison with \<open>NaN\<close> is false.
\<close>

datatype jsnum = NaN | Num int

fun js_add :: "jsnum \<Rightarrow> jsnum \<Rightarrow> jsnum" where
  "js_add (Num a) (Num b) = Num (a + b)"
| "js_add _ _ = NaN"

fun js_sub :: "jsnum \<Rightarrow> jsnum \<Rightarrow> jsnum" where
  "js_sub (Num a) (Num b) = Num (a - b)"
| "js_sub _ _ = NaN"

fun js_mul :: "jsnum \<Rightarrow> jsnum \<Rightarrow> jsnum" where
  "js_mul (Num a) (Num b) = Num (a * b)"
| "js_mul _ _ = NaN"

fun js_lt :: "jsnum \<Rightarrow> jsnum \<Rightarrow> bool" where
  "js_lt (Num a) (Num b) = (a < b)"
| "js_lt _ _ = False"

fun js_le :: "jsnum \<Rightarrow> jsnum \<Rightarrow> bool" where
  "js_le (Num a) (Num b) = (a \<le> b)"
| "js_le _ _ = False"

fun Math_max :: "jsnum \<Rightarrow> jsnum \<Rightarrow> jsnum" where
  "Math_max (Num a) (Num b) = Num (max a b)"
| "Math_max _ _ = NaN"

fun Math_min :: "jsnum \<Rightarrow> jsnum \<Rightarrow> jsnum" where
  "Math_min (Num a) (Num b) = Num (min a b)"
| "Math_min _ _ = NaN"

text \<open>
  \<open>Math.round(x / d)\<close> and \<open>Math.floor(x / d)\<close> for an integer \<open>x\<close> and a constant
  \<open>d\<close>: the quotient is taken in the rationals, \<open>Math.round\<close> rounds a half towards
  \<open>+\<infinity>\<close>.
\<close>

definition Math_round :: "rat \<Rightarrow> int" where
  "Math_round x = \<lfloor>x + 1 / 2\<rfloor>"

definition Math_floor :: "rat \<Rightarrow> int" where
  "Math_floor x = \<lfloor>x\<rfloor>"

fun round_div :: "jsnum \<Rightarrow> int \<Rightarrow> jsnum" where
  "round_div (Num x) d = Num (Math_round (of_int x / of_int d))"
| "round_div NaN d = NaN"

fun floor_div :: "jsnum \<Rightarrow> int \<Rightarrow> jsnum" where
  "floor_div (Num x) d = Num (Math_floor (of_int x / of_int d))"
| "floor_div NaN d = NaN"

text \<open>
  Strings are sequences of UTF-16 code units. Literals of the source are written with
  \<open>str\<close>.
\<close>

type_synonym jsstring = "nat list"

definition str :: "string \<Rightarrow> jsstring" where
  "str s = map of_char s"

text \<open>
  \<open>String.prototype.trim\<close> and \<open>parseInt\<close> strip the code points of WhiteSpace and
  LineTerminator: TAB, LF, VT, FF, CR, SP, NBSP, U+1680, U+2000 to U+200A, U+2028, U+2029,
  U+202F, U+205F, U+3000 and U+FEFF.
\<close>

definition isWhiteSpace :: "nat \<Rightarrow> bool" where
  "isWhiteSpace c \<longleftrightarrow>
     (9 \<le> c \<and> c \<le> 13) \<or> c = 32 \<or> c = 160 \<or> c = 5760 \<or> (8192 \<le> c \<and> c \<le> 8202) \<or>
     c = 8232 \<or> c = 8233 \<or> c = 8239 \<or> c = 8287 \<or> c = 12288 \<or> c = 65279"

definition trim :: "jsstring \<Rightarrow> jsstring" where
  "trim s = rev (dropWhile isWhiteSpace (rev (dropWhile isWhiteSpace s)))"

definition isDigit :: "nat \<Rightarrow> bool" where
  "isDigit c \<longleftrightarrow> 48 \<le> c \<and> c \<le> 57"

definition digitsVal :: "jsstring \<Rightarrow> nat" where
  "digitsVal ds = foldl (\<lambda>a c. 10 * a + (c - 48)) 0 ds"

text \<open>
  \<open>parseInt(s, 10)\<close>: leading white space is skipped, one sign is read, then the longest
  run of decimal digits; no digit gives \<open>NaN\<close>. Whatever follows the digits is ignored.
\<close>

definition parseInt :: "jsstring \<Rightarrow> jsnum" where
  "parseInt s =
     (let S = dropWhile isWhiteSpace s;
          sign = (case S of c # _ \<Rightarrow> if c = 45 then - 1 else 1 | [] \<Rightarrow> 1);
          S' = (case S of c # cs \<Rightarrow> if c = 45 \<or> c = 43 then cs else S | [] \<Rightarrow> []);
          Z = takeWhile isDigit S'
      in if Z = [] then NaN else Num (sign * int (digitsVal Z)))"

text \<open>\<open>v || d\<close> on strings: the empty string is the only falsy one.\<close>

definition orElse :: "jsstring \<Rightarrow> jsstring \<Rightarrow> jsstring" where
  "orElse v d = (if v = [] then d else v)"

text \<open>\<open>s.split(',')\<close>: the pieces between the separators; \<open>''.split(',')\<close> is \<open>['']\<close>.\<close>

fun split :: "nat \<Rightarrow> jsstring \<Rightarrow> jsstring list" where
  "split sep [] = [[]]"
| "split sep (c # cs) =
     (if c = sep then [] # split sep cs
      else (case split sep cs of w # ws \<Rightarrow> (c # w) # ws | [] \<Rightarrow> [[c]]))"

section \<open>Points and level\<close>

fun levelFromPoints :: "jsnum \<Rightarrow> string" where
  "levelFromPoints p =
     (if js_lt p (Num 50) then ''Novice''
      else if js_lt p (Num 150) then ''Builder''
      else if js_lt p (Num 300) then ''Navigator''
      else if js_lt p (Num 600) then ''Architect''
      else ''Master'')"

text \<open>The position of a level name among the five names, in the order of their thresholds.\<close>

definition tierIndex :: "string \<Rightarrow> nat" where
  "tierIndex name =
     (if name = ''Novice'' then 1 else if name = ''Builder'' then 2
      else if name = ''Navigator'' then 3 else if name = ''Architect'' then 4
      else if name = ''Master'' then 5 else 0)"

section \<open>The program's state\<close>

text \<open>
  The module-level variables of app.js, the values of the form fields it reads, and the
  parts of the browser it acts on: \<open>localStorage\<close>, the console that \<open>toast\<close> writes
  to, and the table of scheduled intervals. \<open>updateTimerDisplay\<close> and the \<open>render\<close>
  functions only write to the page and to the charts; no function reads back what they
  wrote, so they are left out. \<open>todayISO()\<close> reads the clock; its result is the argument
  \<open>today\<close> of the functions that call it.
\<close>

record session =
  dateISO :: jsstring
  minutes :: jsnum
  title :: jsstring
  tags :: "jsstring list"

record moodEntry =
  dateISO_m :: jsstring
  mood :: jsstring
  reflection :: jsstring

type_synonym habitLog = "(jsstring \<times> (jsstring \<times> bool) list) list"

record timerState =
  remainingSec :: jsnum
  running :: bool
  intervalId :: "nat option"

record elements =
  timerMinutesInput_value :: jsstring
  sessionTitle_value :: jsstring
  sessionTags_value :: jsstring
  moodSelect_value :: jsstring
  reflection_value :: jsstring

text \<open>
  What \<open>JSON.stringify\<close> stores under a key: a number (\<open>NaN\<close> is stored as \<open>null\<close>), a
  date, or one of the three collections.
\<close>

datatype json =
    JNull
  | JNumber int
  | JString jsstring
  | JSessions "session list"
  | JHabits habitLog
  | JMoods "moodEntry list"

fun stringify_num :: "jsnum \<Rightarrow> json" where
  "stringify_num NaN = JNull"
| "stringify_num (Num n) = JNumber n"

text \<open>The messages given to \<open>toast\<close>, with the values the template strings insert.\<close>

datatype toastMsg =
    TimerDone
  | LogSomeMinutes
  | Logged jsstring jsnum
  | PickMood
  | Saved

record state =
  sessions :: "session list"
  habits :: habitLog
  moods :: "moodEntry list"
  points :: jsnum
  streak :: int
  lastDate :: jsstring
  timer :: timerState
  el :: elements
  localStorage :: "string \<rightharpoonup> json"
  toasts :: "toastMsg list"
  intervals :: "nat list"
  lastHandle :: nat

definition STORAGE_KEYS_sessions :: string where "STORAGE_KEYS_sessions = ''tw_sessions''"
definition STORAGE_KEYS_habits :: string where "STORAGE_KEYS_habits = ''tw_habits''"
definition STORAGE_KEYS_mood :: string where "STORAGE_KEYS_mood = ''tw_moods''"
definition STORAGE_KEYS_points :: string where "STORAGE_KEYS_points = ''tw_points''"
definition STORAGE_KEYS_streak :: string where "STORAGE_KEYS_streak = ''tw_streak''"
definition STORAGE_KEYS_lastActiveDate :: string where "STORAGE_KEYS_lastActiveDate = ''tw_last_date''"

text \<open>\<open>set(k, v)\<close>: \<open>localStorage.setItem(k, JSON.stringify(v))\<close>.\<close>

definition set_storage :: "string \<Rightarrow> json \<Rightarrow> state \<Rightarrow> state" where
  "set_storage k v s = s\<lparr>localStorage := (localStorage s)(k \<mapsto> v)\<rparr>"

definition toast :: "toastMsg \<Rightarrow> state \<Rightarrow> state" where
  "toast msg s = s\<lparr>toasts := toasts s @ [msg]\<rparr>"

definition sameDay :: "jsstring \<Rightarrow> jsstring \<Rightarrow> bool" where
  "sameDay a b \<longleftrightarrow> a = b"

text \<open>
  The module-level variables as the data-init block leaves them on an empty
  \<open>localStorage\<close>, with the form fields holding \<open>e\<close>; \<open>today\<close> is what \<open>todayISO()\<close>
  returns.
\<close>

definition freshState :: "jsstring \<Rightarrow> elements \<Rightarrow> state" where
  "freshState today e =
     \<lparr>sessions = [], habits = [], moods = [], points = Num 0, streak = 0, lastDate = today,
      timer = \<lparr>remainingSec = Num (25 * 60), running = False, intervalId = None\<rparr>,
      el = e, localStorage = Map.empty, toasts = [], intervals = [], lastHandle = 0\<rparr>"

section \<open>Streak\<close>

text \<open>
  The function expression that runs once while the script loads. \<open>habits[lastDate]\<close> is
  the entry of that date, and \<open>Object.values(...).some(Boolean)\<close> asks for a flag that
  is true.
\<close>

definition hadActivityYesterday :: "state \<Rightarrow> bool" where
  "hadActivityYesterday s \<longleftrightarrow>
     list_ex (\<lambda>x. dateISO x = lastDate s) (sessions s) \<or>
     (case map_of (habits s) (lastDate s) of None \<Rightarrow> False | Some h \<Rightarrow> list_ex snd h) \<or>
     list_ex (\<lambda>m. dateISO_m m = lastDate s) (moods s)"

definition maintainStreak :: "jsstring \<Rightarrow> state \<Rightarrow> state" where
  "maintainStreak today s =
     (if \<not> sameDay (lastDate s) today then
        let s1 = s\<lparr>streak := (if hadActivityYesterday s then streak s + 1 else 0)\<rparr>;
            s2 = set_storage STORAGE_KEYS_streak (JNumber (streak s1)) s1;
            s3 = s2\<lparr>lastDate := today\<rparr>
        in set_storage STORAGE_KEYS_lastActiveDate (JString (lastDate s3)) s3
      else s)"

section \<open>Awarding points\<close>

definition awardPoints :: "jsnum \<Rightarrow> state \<Rightarrow> state" where
  "awardPoints n s =
     (let s1 = s\<lparr>points := js_add (points s) n\<rparr>
      in set_storage STORAGE_KEYS_points (stringify_num (points s1)) s1)"

section \<open>Timer\<close>

text \<open>
  \<open>setInterval\<close> hands out a fresh positive handle and schedules the callback;
  \<open>clearInterval\<close> removes a handle from the schedule.
\<close>

definition setInterval :: "state \<Rightarrow> nat \<times> state" where
  "setInterval s =
     (Suc (lastHandle s),
      s\<lparr>intervals := intervals s @ [Suc (lastHandle s)], lastHandle := Suc (lastHandle s)\<rparr>)"

definition clearInterval :: "nat \<Rightarrow> state \<Rightarrow> state" where
  "clearInterval i s = s\<lparr>intervals := removeAll i (intervals s)\<rparr>"

definition pauseTimer :: "state \<Rightarrow> state" where
  "pauseTimer s =
     (let s1 = s\<lparr>timer := (timer s)\<lparr>running := False\<rparr>\<rparr>
      in case intervalId (timer s1) of
           Some i \<Rightarrow> if i \<noteq> 0 then clearInterval i s1 else s1
         | None \<Rightarrow> s1)"

text \<open>The callback that \<open>startTimer\<close> gives to \<open>setInterval\<close>.\<close>

definition tick :: "state \<Rightarrow> state" where
  "tick s =
     (let s1 = s\<lparr>timer := (timer s)
                 \<lparr>remainingSec := Math_max (Num 0) (js_sub (remainingSec (timer s)) (Num 1))\<rparr>\<rparr>
      in if remainingSec (timer s1) = Num 0
         then toast TimerDone (awardPoints (Num 5) (pauseTimer s1))
         else s1)"

definition startTimer :: "state \<Rightarrow> state" where
  "startTimer s =
     (if running (timer s) then s
      else let s1 = s\<lparr>timer := (timer s)\<lparr>running := True\<rparr>\<rparr>;
               (i, s2) = setInterval s1
           in s2\<lparr>timer := (timer s2)\<lparr>intervalId := Some i\<rparr>\<rparr>)"

definition timerMinutes :: "state \<Rightarrow> jsnum" where
  "timerMinutes s = parseInt (orElse (timerMinutesInput_value (el s)) (str ''25''))"

definition resetTimer :: "state \<Rightarrow> state" where
  "resetTimer s =
     (let s1 = pauseTimer s;
          mins = Math_max (Num 1) (timerMinutes s1)
      in s1\<lparr>timer := (timer s1)\<lparr>remainingSec := js_mul mins (Num 60)\<rparr>\<rparr>)"

text \<open>
  One second of the browser's clock: every interval that is scheduled when the second
  ends runs its callback, unless an earlier callback of the same second cleared it.
  \<open>seconds n\<close> lets \<open>n\<close> seconds pass with no other event in between.
\<close>

definition second :: "state \<Rightarrow> state" where
  "second s = fold (\<lambda>i s'. if i \<in> set (intervals s') then tick s' else s') (intervals s) s"

primrec seconds :: "nat \<Rightarrow> state \<Rightarrow> state" where
  "seconds 0 s = s"
| "seconds (Suc n) s = seconds n (second s)"

section \<open>Logging a session\<close>

definition logSession_totalSec :: "state \<Rightarrow> jsnum" where
  "logSession_totalSec s =
     js_sub (js_mul (Math_max (Num 0) (timerMinutes s)) (Num 60)) (remainingSec (timer s))"

definition logSession_minutes :: "state \<Rightarrow> jsnum" where
  "logSession_minutes s = round_div (logSession_totalSec s) 60"

definition logSession_title :: "state \<Rightarrow> jsstring" where
  "logSession_title s = trim (orElse (sessionTitle_value (el s)) (str ''Focus block''))"

definition logSession_tags :: "state \<Rightarrow> jsstring list" where
  "logSession_tags s =
     filter (\<lambda>t. t \<noteq> []) (map trim (split 44 (orElse (sessionTags_value (el s)) [])))"

definition sessionPoints :: "jsnum \<Rightarrow> jsnum" where
  "sessionPoints m = Math_min (Num 10) (Math_max (Num 1) (floor_div m 5))"

definition logSession :: "jsstring \<Rightarrow> state \<Rightarrow> state" where
  "logSession today s =
     (if js_le (logSession_minutes s) (Num 0) then toast LogSomeMinutes s
      else
        let s1 = s\<lparr>sessions := sessions s @
                     [\<lparr>dateISO = today, minutes = logSession_minutes s,
                       title = logSession_title s, tags = logSession_tags s\<rparr>]\<rparr>;
            s2 = set_storage STORAGE_KEYS_sessions (JSessions (sessions s1)) s1;
            s3 = awardPoints (sessionPoints (logSession_minutes s)) s2
        in toast (Logged (logSession_title s) (logSession_minutes s)) s3)"

section \<open>Mood\<close>

text \<open>\<open>Array.prototype.findIndex\<close>: the first index that satisfies the test, or \<open>-1\<close>.\<close>

fun findIndex :: "('a \<Rightarrow> bool) \<Rightarrow> 'a list \<Rightarrow> int" where
  "findIndex P [] = - 1"
| "findIndex P (x # xs) =
     (if P x then 0 else (let i = findIndex P xs in if i < 0 then - 1 else i + 1))"

definition saveMood :: "jsstring \<Rightarrow> state \<Rightarrow> state" where
  "saveMood today s =
     (let md = moodSelect_value (el s);
          refl = trim (reflection_value (el s))
      in if md = [] \<and> refl = [] then toast PickMood s
         else
           let entry = \<lparr>dateISO_m = today, mood = md, reflection = refl\<rparr>;
               idx = findIndex (\<lambda>m. dateISO_m m = dateISO_m entry) (moods s);
               s1 = s\<lparr>moods := (if 0 \<le> idx then (moods s)[nat idx := entry]
                                 else moods s @ [entry])\<rparr>;
               s2 = set_storage STORAGE_KEYS_mood (JMoods (moods s1)) s1;
               s3 = awardPoints (Num 1) s2;
               s4 = s3\<lparr>el := (el s3)\<lparr>reflection_value := []\<rparr>\<rparr>
           in toast Saved s4)"

section \<open>Tag totals\<close>

text \<open>
  \<open>aggregateTags\<close> keeps its totals in an object literal \<open>{}\<close>. An object is the list of its
  own properties in the order of their creation. A value stored there is a number or, when
  the tag names a member of \<open>Object.prototype\<close>, a text: reading such a tag before it is
  stored finds the inherited member (\<open>VObject\<close>), and adding the minutes to it concatenates
  strings (\<open>VText\<close>, which is never numeric).
\<close>

datatype jsval = VUndefined | VNum jsnum | VText | VObject

type_synonym obj = "(jsstring \<times> jsval) list"

definition objectPrototypeNames :: "jsstring list" where
  "objectPrototypeNames =
     map str [''constructor'', ''__defineGetter__'', ''__defineSetter__'', ''hasOwnProperty'',
              ''__lookupGetter__'', ''__lookupSetter__'', ''isPrototypeOf'',
              ''propertyIsEnumerable'', ''toString'', ''valueOf'', ''__proto__'',
              ''toLocaleString'']"

text \<open>\<open>m[k]\<close> read: an own property, else a member inherited from \<open>Object.prototype\<close>.\<close>

definition obj_get :: "obj \<Rightarrow> jsstring \<Rightarrow> jsval" where
  "obj_get m k =
     (case map_of m k of
        Some v \<Rightarrow> v
      | None \<Rightarrow> if k \<in> set objectPrototypeNames then VObject else VUndefined)"

text \<open>Defining an own property: the value is replaced in place, or the property is added last.\<close>

fun obj_define :: "jsstring \<Rightarrow> jsval \<Rightarrow> obj \<Rightarrow> obj" where
  "obj_define k v [] = [(k, v)]"
| "obj_define k v (e # m) = (if fst e = k then (k, v) # m else e # obj_define k v m)"

text \<open>
  \<open>m[k] = v\<close> for a primitive \<open>v\<close>: the inherited setter of \<open>__proto__\<close> ignores it; any
  other key becomes an own property.
\<close>

definition obj_set :: "jsstring \<Rightarrow> jsval \<Rightarrow> obj \<Rightarrow> obj" where
  "obj_set k v m =
     (if k = str ''__proto__'' \<and> map_of m k = None then m else obj_define k v m)"

fun truthy :: "jsval \<Rightarrow> bool" where
  "truthy VUndefined = False"
| "truthy (VNum NaN) = False"
| "truthy (VNum (Num n)) = (n \<noteq> 0)"
| "truthy VText = True"
| "truthy VObject = True"

definition orZero :: "jsval \<Rightarrow> jsval" where
  "orZero v = (if truthy v then v else VNum (Num 0))"

fun plusNum :: "jsval \<Rightarrow> jsnum \<Rightarrow> jsval" where
  "plusNum (VNum a) b = VNum (js_add a b)"
| "plusNum VUndefined b = VNum NaN"
| "plusNum VText b = VText"
| "plusNum VObject b = VText"

fun toNumber :: "jsval \<Rightarrow> jsnum" where
  "toNumber (VNum a) = a"
| "toNumber _ = NaN"

text \<open>
  An array index is the canonical decimal form of an integer below \<open>2 ^ 32 - 1\<close>.
  \<open>Object.entries\<close> lists the own properties whose keys are array indices first, in
  ascending numeric order, then the others in the order of their creation.
\<close>

definition arrayIndex :: "jsstring \<Rightarrow> nat option" where
  "arrayIndex k =
     (if k \<noteq> [] \<and> list_all isDigit k \<and> (k = [48] \<or> hd k \<noteq> 48) \<and> int (digitsVal k) < 2 ^ 32 - 1
      then Some (digitsVal k) else None)"

definition Object_entries :: "obj \<Rightarrow> (jsstring \<times> jsval) list" where
  "Object_entries m =
     sort_key (\<lambda>e. the (arrayIndex (fst e))) (filter (\<lambda>e. arrayIndex (fst e) \<noteq> None) m) @
     filter (\<lambda>e. arrayIndex (fst e) = None) m"

definition Object_fromEntries :: "(jsstring \<times> jsval) list \<Rightarrow> obj" where
  "Object_fromEntries es = fold (\<lambda>e m. obj_define (fst e) (snd e) m) es []"

text \<open>
  \<open>Array.prototype.sort\<close> is stable, and reads a comparator result \<open>NaN\<close> as \<open>+0\<close>. For a
  consistent comparator its result is the one stable ordering, computed here by insertion;
  for an inconsistent one (a total that is \<open>NaN\<close> or a text) ECMAScript leaves the order to
  the implementation.
\<close>

definition notAfter :: "jsnum \<Rightarrow> bool" where
  "notAfter c = (case c of NaN \<Rightarrow> True | Num d \<Rightarrow> d \<le> 0)"

fun insertBy :: "('a \<Rightarrow> 'a \<Rightarrow> jsnum) \<Rightarrow> 'a \<Rightarrow> 'a list \<Rightarrow> 'a list" where
  "insertBy cmp x [] = [x]"
| "insertBy cmp x (y # ys) = (if notAfter (cmp x y) then x # y # ys else y # insertBy cmp x ys)"

definition Array_sort :: "('a \<Rightarrow> 'a \<Rightarrow> jsnum) \<Rightarrow> 'a list \<Rightarrow> 'a list" where
  "Array_sort cmp xs = foldr (insertBy cmp) xs []"

text \<open>\<open>xs.slice(0, end)\<close>: a negative \<open>end\<close> counts from the end of the array.\<close>

definition slice0 :: "int \<Rightarrow> 'a list \<Rightarrow> 'a list" where
  "slice0 end xs =
     (let len = int (length xs);
          final = (if end < 0 then max (len + end) 0 else min end len)
      in take (nat final) xs)"

text \<open>The body of the inner loop: \<open>map[t] = (map[t] || 0) + s.minutes\<close>.\<close>

definition addTag :: "jsnum \<Rightarrow> jsstring \<Rightarrow> obj \<Rightarrow> obj" where
  "addTag mins t m = obj_set t (plusNum (orZero (obj_get m t)) mins) m"

definition tagMap :: "session list \<Rightarrow> obj" where
  "tagMap ss = fold (\<lambda>s m. fold (addTag (minutes s)) (tags s) m) ss []"

text \<open>\<open>aggregateTags(limit)\<close> on the sessions; the source's default for \<open>limit\<close> is 8.\<close>

definition aggregateTags :: "int \<Rightarrow> session list \<Rightarrow> obj" where
  "aggregateTags limit ss =
     (let sorted = slice0 limit
            (Array_sort (\<lambda>a b. js_sub (toNumber (snd b)) (toNumber (snd a)))
               (Object_entries (tagMap ss)))
      in Object_fromEntries sorted)"

section \<open>The ranking of tag totals in the specification\<close>

text \<open>The minutes of a session as an integer (0 stands in for \<open>NaN\<close>).\<close>

definition minutesInt :: "session \<Rightarrow> int" where
  "minutesInt s = (case minutes s of Num n \<Rightarrow> n | NaN \<Rightarrow> 0)"

text \<open>The elements of a list in the order of their first occurrence.\<close>

fun firstSeen :: "'a list \<Rightarrow> 'a list" where
  "firstSeen [] = []"
| "firstSeen (x # xs) = x # filter (\<lambda>y. y \<noteq> x) (firstSeen xs)"

text \<open>
  Two readings of a tag's total: the minutes of the sessions whose tags contain the tag,
  and the minutes of a session counted once for every occurrence of the tag in its tags.
\<close>

definition containingTotal :: "session list \<Rightarrow> jsstring \<Rightarrow> int" where
  "containingTotal ss t = sum_list (map minutesInt (filter (\<lambda>s. t \<in> set (tags s)) ss))"

definition occurrenceTotal :: "session list \<Rightarrow> jsstring \<Rightarrow> int" where
  "occurrenceTotal ss t = sum_list (map (\<lambda>s. int (count_list (tags s) t) * minutesInt s) ss)"

text \<open>
  The ranking the specification describes: the tags in first-encountered order, sorted by
  descending total with \<open>sort_key\<close> (a stable sort, so ties keep the first-encountered
  order), cut to the first \<open>limit\<close>, each with its total.
\<close>

definition ranked :: "(jsstring \<Rightarrow> int) \<Rightarrow> int \<Rightarrow> session list \<Rightarrow> (jsstring \<times> jsval) list" where
  "ranked tot limit ss =
     map (\<lambda>t. (t, VNum (Num (tot t))))
       (take (nat limit) (sort_key (\<lambda>t. - tot t) (firstSeen (concat (map tags ss)))))"

text \<open>A tag that is neither an array index nor the name of a member of \<open>Object.prototype\<close>.\<close>

definition plainTag :: "jsstring \<Rightarrow> bool" where
  "plainTag t \<longleftrightarrow> arrayIndex t = None \<and> t \<notin> set objectPrototypeNames"

text \<open>
  For the proofs: the object that holds the numbers \<open>f k\<close> under the keys \<open>ks\<close>, the
  pairs of tag and minutes in the order the two loops visit them, and the sum of the
  minutes paired with one tag.
\<close>

definition enc :: "(jsstring \<Rightarrow> int) \<Rightarrow> jsstring list \<Rightarrow> obj" where
  "enc f ks = map (\<lambda>k. (k, VNum (Num (f k)))) ks"

definition ipairs :: "session list \<Rightarrow> (jsstring \<times> int) list" where
  "ipairs ss = concat (map (\<lambda>s. map (\<lambda>t. (t, minutesInt s)) (tags s)) ss)"

definition psum :: "(jsstring \<times> int) list \<Rightarrow> jsstring \<Rightarrow> int" where
  "psum ps k = sum_list (map snd (filter (\<lambda>p. fst p = k) ps))"

section \<open>The timer and its interval\<close>

text \<open>
  What the timer functions keep true: while the timer runs, the one scheduled interval is
  the one \<open>timer.intervalId\<close> names; while it does not run, none is scheduled.
\<close>

definition timer_inv :: "state \<Rightarrow> bool" where
  "timer_inv s \<longleftrightarrow>
     (if running (timer s)
      then intervalId (timer s) \<noteq> Some 0 \<and> map Some (intervals s) = [intervalId (timer s)]
      else intervals s = [])"

text \<open>
  The states the page can be in: the script starts with the initial timer and no interval,
  then the user types into the fields and clicks, and the clock fires the interval.
\<close>

inductive reachable :: "state \<Rightarrow> bool" where
  boot: "timer s = \<lparr>remainingSec = Num (25 * 60), running = False, intervalId = None\<rparr> \<Longrightarrow>
         intervals s = [] \<Longrightarrow> reachable s"
| typed: "reachable s \<Longrightarrow> reachable (s\<lparr>el := e\<rparr>)"
| streak: "reachable s \<Longrightarrow> reachable (maintainStreak today s)"
| start: "reachable s \<Longrightarrow> reachable (startTimer s)"
| pause: "reachable s \<Longrightarrow> reachable (pauseTimer s)"
| reset: "reachable s \<Longrightarrow> reachable (resetTimer s)"
| logged: "reachable s \<Longrightarrow> reachable (logSession today s)"
| mood_saved: "reachable s \<Longrightarrow> reachable (saveMood today s)"
| clock: "reachable s \<Longrightarrow> reachable (second s)"

text \<open>The state a run leaves when its last tick reaches zero.\<close>

definition completed :: "state \<Rightarrow> state" where
  "completed s =
     s\<lparr>timer := (timer s)\<lparr>remainingSec := Num 0, running := False\<rparr>, intervals := [],
       points := js_add (points s) (Num 5),
       localStorage := (localStorage s)(STORAGE_KEYS_points \<mapsto>
                          stringify_num (js_add (points s) (Num 5))),
       toasts := toasts s @ [TimerDone]\<rparr>"

section \<open>Example states\<close>

definition exampleFields :: elements where
  "exampleFields =
     \<lparr>timerMinutesInput_value = [], sessionTitle_value = str ''   '',
      sessionTags_value = str '' a, ,b'', moodSelect_value = [], reflection_value = []\<rparr>"

definition loggedFields :: "string \<Rightarrow> elements" where
  "loggedFields mins =
     \<lparr>timerMinutesInput_value = str mins, sessionTitle_value = str ''Read paper'',
      sessionTags_value = str ''math, ,logic'', moodSelect_value = [], reflection_value = []\<rparr>"

definition finishedState :: "string \<Rightarrow> state" where
  "finishedState mins =
     (freshState (str ''2024-01-02'') (loggedFields mins))
       \<lparr>timer := \<lparr>remainingSec = Num 0, running = False, intervalId = Some 1\<rparr>, lastHandle := 1\<rparr>"

definition yesterdayState :: state where
  "yesterdayState =
     (freshState (str ''2024-01-01'') (loggedFields ''25''))
       \<lparr>sessions := [\<lparr>dateISO = str ''2024-01-01'', minutes = Num 25,
                       title = str ''Read paper'', tags = [str ''math'']\<rparr>],
        streak := 3\<rparr>"

definition oneMinuteState :: state where
  "oneMinuteState = freshState (str ''2024-01-02'') (loggedFields ''1'')"

definition taggedSession :: "int \<Rightarrow> string list \<Rightarrow> session" where
  "taggedSession n ts =
     \<lparr>dateISO = str ''2024-01-02'', minutes = Num n, title = str ''Focus block'',
      tags = map str ts\<rparr>"

definition blankTitleState :: state where
  "blankTitleState =
     (finishedState ''25'')\<lparr>el := exampleFields\<lparr>timerMinutesInput_value := str ''25''\<rparr>\<rparr>"

definition moodState :: state where
  "moodState =
     (freshState (str ''2024-01-02'') (loggedFields ''25''))
       \<lparr>moods := [\<lparr>dateISO_m = str ''2024-01-02'', mood = str ''ok'', reflection = []\<rparr>],
        el := (loggedFields ''25'')\<lparr>moodSelect_value := str ''good''\<rparr>\<rparr>"

section \<open>Arithmetic of the two rounded divisions\<close>

lemma Math_round_div_60: "Math_round (of_int x / of_int 60) = (x + 30) div 60"
proof -
  have "(of_int x / of_int 60 + 1 / 2 :: rat) = of_int (x + 30) / of_int 60"
    by (simp add: field_simps)
  then show ?thesis
    unfolding Math_round_def by (simp only: floor_divide_of_int_eq)
qed

lemma Math_floor_div: "Math_floor (of_int x / of_int d) = x div d"
  unfolding Math_floor_def by (simp only: floor_divide_of_int_eq)

section \<open>Level thresholds\<close>

text \<open>
  C1. For every integer \<open>p\<close> (in particular every \<open>p \<ge> 0\<close>), \<open>levelFromPoints\<close> returns
  Novice (tier 1) exactly when \<open>p < 50\<close>, Builder (tier 2) exactly when \<open>50 \<le> p < 150\<close>,
  Navigator (tier 3) exactly when \<open>150 \<le> p < 300\<close>, Architect (tier 4) exactly when
  \<open>300 \<le> p < 600\<close> and Master (tier 5) exactly when \<open>p \<ge> 600\<close>; the tier index is
  monotonic non-decreasing in \<open>p\<close>; and the eight boundary values 49, 50, 149, 150, 299,
  300, 599, 600 fall in tiers 1, 2, 2, 3, 3, 4, 4, 5.
\<close>

theorem levelFromPoints_thresholds:
  "((levelFromPoints (Num p) = ''Novice'') = (p < 50)) \<and>
   ((levelFromPoints (Num p) = ''Builder'') = (50 \<le> p \<and> p < 150)) \<and>
   ((levelFromPoints (Num p) = ''Navigator'') = (150 \<le> p \<and> p < 300)) \<and>
   ((levelFromPoints (Num p) = ''Architect'') = (300 \<le> p \<and> p < 600)) \<and>
   ((levelFromPoints (Num p) = ''Master'') = (600 \<le> p)) \<and>
   ((tierIndex (levelFromPoints (Num p)) = 1) = (p < 50)) \<and>
   ((tierIndex (levelFromPoints (Num p)) = 2) = (50 \<le> p \<and> p < 150)) \<and>
   ((tierIndex (levelFromPoints (Num p)) = 3) = (150 \<le> p \<and> p < 300)) \<and>
   ((tierIndex (levelFromPoints (Num p)) = 4) = (300 \<le> p \<and> p < 600)) \<and>
   ((tierIndex (levelFromPoints (Num p)) = 5) = (600 \<le> p)) \<and>
   (p \<le> q \<longrightarrow> tierIndex (levelFromPoints (Num p)) \<le> tierIndex (levelFromPoints (Num q))) \<and>
   map (\<lambda>n. tierIndex (levelFromPoints (Num n))) [49, 50, 149, 150, 299, 300, 599, 600]
     = [1, 2, 2, 3, 3, 4, 4, 5]"
  by (simp add: tierIndex_def)

theorem levelFromPoints_thresholds_witness:
  "(149::int) \<le> 150 \<and>
   tierIndex (levelFromPoints (Num 149)) \<le> tierIndex (levelFromPoints (Num 150)) \<and>
   levelFromPoints (Num 149) = ''Builder'' \<and> levelFromPoints (Num 150) = ''Navigator''"
  using levelFromPoints_thresholds [of 149 150] by simp

section \<open>Evaluation and projection lemmas\<close>

lemmas string_defs =
  str_def trim_def isWhiteSpace_def isDigit_def digitsVal_def parseInt_def orElse_def

lemmas key_defs = STORAGE_KEYS_sessions_def STORAGE_KEYS_habits_def STORAGE_KEYS_mood_def
  STORAGE_KEYS_points_def STORAGE_KEYS_streak_def STORAGE_KEYS_lastActiveDate_def

declare round_div.simps [simp del] floor_div.simps [simp del]

lemma round_div_NaN [simp]: "round_div NaN d = NaN"
  by (simp add: round_div.simps)

lemma floor_div_NaN [simp]: "floor_div NaN d = NaN"
  by (simp add: floor_div.simps)

lemma round_div_60: "round_div (Num x) 60 = Num ((x + 30) div 60)"
  using Math_round_div_60 [of x] by (simp add: round_div.simps)

lemma floor_div_5: "floor_div (Num x) 5 = Num (x div 5)"
  using Math_floor_div [of x 5] by (simp add: floor_div.simps)

lemma timer_pauseTimer: "timer (pauseTimer s) = (timer s)\<lparr>running := False\<rparr>"
  by (simp add: pauseTimer_def clearInterval_def Let_def split: option.splits)

lemma el_pauseTimer: "el (pauseTimer s) = el s"
  by (simp add: pauseTimer_def clearInterval_def Let_def split: option.splits)

lemma remainingSec_resetTimer:
  "remainingSec (timer (resetTimer s)) = js_mul (Math_max (Num 1) (timerMinutes s)) (Num 60)"
  by (simp add: resetTimer_def Let_def timerMinutes_def timer_pauseTimer el_pauseTimer)

section \<open>Configuring the timer\<close>

text \<open>
  C7, as stated, fails on the code: with the minutes field left empty, \<open>resetTimer\<close> reads
  the default \<open>'25'\<close> and sets 1500 seconds, not 60.
\<close>

theorem resetTimer_missing_counterexample:
  "timerMinutesInput_value (el (freshState (str ''2024-01-02'') exampleFields)) = [] \<and>
   remainingSec (timer (resetTimer (freshState (str ''2024-01-02'') exampleFields))) = Num 1500 \<and>
   remainingSec (timer (resetTimer (freshState (str ''2024-01-02'') exampleFields))) \<noteq> Num 60"
  by (simp add: remainingSec_resetTimer timerMinutes_def freshState_def exampleFields_def string_defs)

text \<open>
  C7, amended. \<open>resetTimer\<close> sets \<open>remainingSec\<close> to \<open>max(1, n) * 60\<close>, where \<open>n\<close> is the
  integer \<open>parseInt\<close> reads from a minutes field that is not empty; a non-positive \<open>n\<close> is
  clamped to one minute, 60 seconds. An empty (missing) minutes field stands for 25 minutes,
  1500 seconds.
\<close>

theorem resetTimer_configures:
  assumes "timerMinutesInput_value (el s) = v"
  shows "(v \<noteq> [] \<and> parseInt v = Num n \<longrightarrow>
            remainingSec (timer (resetTimer s)) = Num (max 1 n * 60)) \<and>
         (v \<noteq> [] \<and> parseInt v = Num n \<and> n \<le> 0 \<longrightarrow>
            remainingSec (timer (resetTimer s)) = Num 60) \<and>
         (v = [] \<longrightarrow> remainingSec (timer (resetTimer s)) = Num (25 * 60))"
  using assms
  by (auto simp add: remainingSec_resetTimer timerMinutes_def orElse_def)
     (simp add: string_defs)

theorem resetTimer_configures_witness:
  "remainingSec (timer (resetTimer (freshState (str ''2024-01-02'')
      (exampleFields\<lparr>timerMinutesInput_value := str ''-3''\<rparr>)))) = Num 60 \<and>
   remainingSec (timer (resetTimer (freshState (str ''2024-01-02'')
      (exampleFields\<lparr>timerMinutesInput_value := str ''40''\<rparr>)))) = Num 2400 \<and>
   remainingSec (timer (resetTimer (freshState (str ''2024-01-02'') exampleFields))) = Num 1500"
  using resetTimer_configures [of "freshState (str ''2024-01-02'')
      (exampleFields\<lparr>timerMinutesInput_value := str ''-3''\<rparr>)" "str ''-3''" "- 3"]
    resetTimer_configures [of "freshState (str ''2024-01-02'')
      (exampleFields\<lparr>timerMinutesInput_value := str ''40''\<rparr>)" "str ''40''" "40"]
    resetTimer_configures [of "freshState (str ''2024-01-02'') exampleFields" "[]" 0]
  by (simp add: freshState_def exampleFields_def string_defs)

section \<open>Points for a logged session\<close>

lemma points_awardPoints: "points (awardPoints n s) = js_add (points s) n"
  by (simp add: awardPoints_def set_storage_def Let_def)

lemma localStorage_awardPoints:
  "localStorage (awardPoints n s) =
     (localStorage s)(STORAGE_KEYS_points \<mapsto> stringify_num (js_add (points s) n))"
  by (simp add: awardPoints_def set_storage_def Let_def)

lemma sessionPoints_Num: "sessionPoints (Num m) = Num (min 10 (max 1 (m div 5)))"
  by (simp add: sessionPoints_def floor_div_5)

text \<open>
  C2. When \<open>logSession\<close> computes elapsed minutes \<open>m > 0\<close>, the log is accepted and the
  points grow by \<open>min(10, max(1, floor(m / 5)))\<close>, which is also what is persisted; so 1, 2,
  3 and 4 minutes award 1 point, 25 minutes award 5, 50 minutes award 10 and 1000 minutes
  award 10.
\<close>

theorem logSession_awards:
  assumes "logSession_minutes s = Num m" and "0 < m"
  shows "\<not> js_le (logSession_minutes s) (Num 0) \<and>
         points (logSession today s) = js_add (points s) (Num (min 10 (max 1 (m div 5)))) \<and>
         localStorage (logSession today s) STORAGE_KEYS_points =
           Some (stringify_num (js_add (points s) (Num (min 10 (max 1 (m div 5)))))) \<and>
         sessionPoints (Num m) = Num (min 10 (max 1 (m div 5))) \<and>
         map sessionPoints [Num 1, Num 2, Num 3, Num 4, Num 25, Num 50, Num 1000] =
           [Num 1, Num 1, Num 1, Num 1, Num 5, Num 10, Num 10]"
proof -
  have accepted: "\<not> js_le (logSession_minutes s) (Num 0)"
    using assms by simp
  have "points (logSession today s) = js_add (points s) (sessionPoints (Num m))"
    using accepted assms(1)
    by (simp add: logSession_def Let_def toast_def points_awardPoints set_storage_def)
  moreover have "localStorage (logSession today s) STORAGE_KEYS_points =
      Some (stringify_num (js_add (points s) (sessionPoints (Num m))))"
    using accepted assms(1)
    by (simp add: logSession_def Let_def toast_def localStorage_awardPoints set_storage_def)
  ultimately show ?thesis
    using accepted by (simp add: sessionPoints_Num)
qed

lemma logSession_minutes_finished_25: "logSession_minutes (finishedState ''25'') = Num 25"
  by (simp add: logSession_minutes_def logSession_totalSec_def timerMinutes_def finishedState_def
      freshState_def loggedFields_def string_defs round_div_60)

theorem logSession_awards_witness:
  "logSession_minutes (finishedState ''25'') = Num 25 \<and> (0::int) < 25 \<and>
   points (finishedState ''25'') = Num 0 \<and>
   points (logSession (str ''2024-01-02'') (finishedState ''25'')) = Num 5"
  using logSession_awards [of "finishedState ''25''" 25 "str ''2024-01-02''"]
    logSession_minutes_finished_25
  by (simp add: finishedState_def freshState_def)

section \<open>Rejecting an empty log\<close>

text \<open>
  C5. When \<open>logSession\<close> computes elapsed minutes \<open>\<le> 0\<close>, the only effect is the advisory
  message: no session is appended, the points are unchanged, and nothing is written to
  \<open>localStorage\<close>; every other part of the state is unchanged as well.
\<close>

theorem logSession_rejects:
  assumes "js_le (logSession_minutes s) (Num 0)"
  shows "logSession today s = s\<lparr>toasts := toasts s @ [LogSomeMinutes]\<rparr> \<and>
         sessions (logSession today s) = sessions s \<and>
         points (logSession today s) = points s \<and>
         localStorage (logSession today s) = localStorage s \<and>
         toasts (logSession today s) = toasts s @ [LogSomeMinutes]"
  using assms by (simp add: logSession_def toast_def)

lemma logSession_minutes_fresh:
  "logSession_minutes (freshState (str ''2024-01-02'') (loggedFields ''25'')) = Num 0"
  by (simp add: logSession_minutes_def logSession_totalSec_def timerMinutes_def
      freshState_def loggedFields_def string_defs round_div_60)

theorem logSession_rejects_witness:
  "js_le (logSession_minutes (freshState (str ''2024-01-02'') (loggedFields ''25''))) (Num 0) \<and>
   sessions (logSession (str ''2024-01-02'')
     (freshState (str ''2024-01-02'') (loggedFields ''25''))) = [] \<and>
   points (logSession (str ''2024-01-02'')
     (freshState (str ''2024-01-02'') (loggedFields ''25''))) = Num 0 \<and>
   toasts (logSession (str ''2024-01-02'')
     (freshState (str ''2024-01-02'') (loggedFields ''25''))) = [LogSomeMinutes]"
  using logSession_rejects [of "freshState (str ''2024-01-02'') (loggedFields ''25'')"
      "str ''2024-01-02''"]
    logSession_minutes_fresh
  by (simp add: freshState_def)

section \<open>Title and tags of a logged session\<close>

lemma sessions_logSession:
  "\<not> js_le (logSession_minutes s) (Num 0) \<Longrightarrow>
   sessions (logSession today s) = sessions s @
     [\<lparr>dateISO = today, minutes = logSession_minutes s,
       title = logSession_title s, tags = logSession_tags s\<rparr>]"
  by (simp add: logSession_def Let_def toast_def awardPoints_def set_storage_def)

lemma logSession_title_cases:
  "logSession_title s =
     (if sessionTitle_value (el s) = [] then str ''Focus block''
      else trim (sessionTitle_value (el s)))"
  by (simp add: logSession_title_def orElse_def) (simp add: str_def trim_def isWhiteSpace_def)

text \<open>
  C8. The tags are the pieces of the tags field between commas, trimmed, without the empty
  ones, and the title is trimmed; but the default title is chosen before trimming, so a
  title field of three spaces is stored as the empty title, not as \<open>Focus block\<close>.
\<close>

theorem logSession_blank_title:
  "sessionTitle_value (el blankTitleState) = str ''   '' \<and>
   sessionTags_value (el blankTitleState) = str '' a, ,b'' \<and>
   sessions (logSession (str ''2024-01-02'') blankTitleState) =
     [\<lparr>dateISO = str ''2024-01-02'', minutes = Num 25, title = [],
       tags = [str ''a'', str ''b'']\<rparr>] \<and>
   title (last (sessions (logSession (str ''2024-01-02'') blankTitleState))) \<noteq>
     str ''Focus block''"
  by (simp add: sessions_logSession logSession_minutes_def logSession_totalSec_def
      timerMinutes_def logSession_title_def logSession_tags_def blankTitleState_def
      finishedState_def freshState_def exampleFields_def string_defs round_div_60)

section \<open>Streak reconciliation\<close>

lemma list_ex_snd: "list_ex snd h \<longleftrightarrow> (\<exists>k. (k, True) \<in> set h)"
  by (induction h) (auto simp add: list_ex_iff)

text \<open>
  C3. If \<open>lastDate\<close> differs from today, the streak becomes \<open>streak + 1\<close> when the date
  \<open>lastDate\<close> has a session, a habit flag that is true, or a mood entry, and 0 otherwise;
  \<open>lastDate\<close> becomes today; both are written to \<open>localStorage\<close>, and nothing else
  changes. If \<open>lastDate\<close> is today, the state is left as it is: nothing is written.
\<close>

theorem maintainStreak_reconciles:
  "(lastDate s \<noteq> today \<longrightarrow>
      streak (maintainStreak today s) =
        (if (\<exists>x \<in> set (sessions s). dateISO x = lastDate s) \<or>
            (\<exists>h k. map_of (habits s) (lastDate s) = Some h \<and> (k, True) \<in> set h) \<or>
            (\<exists>m \<in> set (moods s). dateISO_m m = lastDate s)
         then streak s + 1 else 0) \<and>
      lastDate (maintainStreak today s) = today \<and>
      localStorage (maintainStreak today s) =
        (localStorage s)(STORAGE_KEYS_streak \<mapsto> JNumber (streak (maintainStreak today s)),
                         STORAGE_KEYS_lastActiveDate \<mapsto> JString today) \<and>
      maintainStreak today s =
        s\<lparr>streak := streak (maintainStreak today s), lastDate := today,
          localStorage := localStorage (maintainStreak today s)\<rparr>) \<and>
   (lastDate s = today \<longrightarrow> maintainStreak today s = s)"
proof -
  have had: "hadActivityYesterday s \<longleftrightarrow>
        (\<exists>x \<in> set (sessions s). dateISO x = lastDate s) \<or>
        (\<exists>h k. map_of (habits s) (lastDate s) = Some h \<and> (k, True) \<in> set h) \<or>
        (\<exists>m \<in> set (moods s). dateISO_m m = lastDate s)"
    unfolding hadActivityYesterday_def list_ex_snd
    by (auto simp add: list_ex_iff split: option.splits)
  show ?thesis
    unfolding had [symmetric]
    by (simp add: maintainStreak_def sameDay_def Let_def set_storage_def)
qed

theorem maintainStreak_reconciles_witness:
  "lastDate yesterdayState \<noteq> str ''2024-01-02'' \<and>
   streak (maintainStreak (str ''2024-01-02'') yesterdayState) = 4 \<and>
   streak (maintainStreak (str ''2024-01-02'') (yesterdayState\<lparr>sessions := []\<rparr>)) = 0 \<and>
   lastDate (maintainStreak (str ''2024-01-02'') yesterdayState) = str ''2024-01-02'' \<and>
   localStorage (maintainStreak (str ''2024-01-02'') yesterdayState) STORAGE_KEYS_streak
     = Some (JNumber 4) \<and>
   lastDate yesterdayState = str ''2024-01-01'' \<and>
   maintainStreak (str ''2024-01-01'') yesterdayState = yesterdayState"
  using maintainStreak_reconciles [of yesterdayState "str ''2024-01-02''"]
    maintainStreak_reconciles [of "yesterdayState\<lparr>sessions := []\<rparr>" "str ''2024-01-02''"]
    maintainStreak_reconciles [of yesterdayState "str ''2024-01-01''"]
  by (simp add: yesterdayState_def freshState_def str_def key_defs)

section \<open>One mood entry per date\<close>

lemma findIndex_ge: "- 1 \<le> findIndex P xs"
  by (induction xs) (auto simp add: Let_def)

lemma findIndex_neg_iff: "findIndex P xs < 0 \<longleftrightarrow> (\<forall>x \<in> set xs. \<not> P x)"
  using findIndex_ge [of P]
  by (induction xs) (auto simp add: Let_def)

lemma findIndex_found:
  "0 \<le> findIndex P xs \<Longrightarrow>
   nat (findIndex P xs) < length xs \<and> P (xs ! nat (findIndex P xs)) \<and>
   (\<forall>j < nat (findIndex P xs). \<not> P (xs ! j))"
proof (induction xs)
  case Nil
  then show ?case by simp
next
  case (Cons x xs)
  show ?case
  proof (cases "P x")
    case True
    then show ?thesis by simp
  next
    case False
    with Cons.prems have ge: "0 \<le> findIndex P xs"
      by (simp add: Let_def split: if_splits)
    with False have eq: "findIndex P (x # xs) = findIndex P xs + 1"
      by (simp add: Let_def)
    have n: "nat (findIndex P xs + 1) = Suc (nat (findIndex P xs))"
      using ge by simp
    from Cons.IH [OF ge] False show ?thesis
      unfolding eq n by (auto simp add: less_Suc_eq_0_disj)
  qed
qed

lemma moods_saveMood:
  "moods (saveMood today s) =
     (if moodSelect_value (el s) = [] \<and> trim (reflection_value (el s)) = [] then moods s
      else if 0 \<le> findIndex (\<lambda>m. dateISO_m m = today) (moods s)
           then (moods s)[nat (findIndex (\<lambda>m. dateISO_m m = today) (moods s)) :=
                  \<lparr>dateISO_m = today, mood = moodSelect_value (el s),
                    reflection = trim (reflection_value (el s))\<rparr>]
           else moods s @ [\<lparr>dateISO_m = today, mood = moodSelect_value (el s),
                    reflection = trim (reflection_value (el s))\<rparr>])"
  by (simp add: saveMood_def Let_def toast_def awardPoints_def set_storage_def)

text \<open>
  C6. If no two mood entries have the same date, the same holds after \<open>saveMood\<close>. A save
  that is accepted (a mood is picked or the trimmed reflection is not empty) replaces
  today's entry in place when there is one, leaving the length unchanged, and appends the
  new entry when there is none, making the sequence one longer. A save with neither mood
  nor reflection is turned down and leaves the entries as they are.
\<close>

theorem saveMood_one_entry_per_date:
  assumes "distinct (map dateISO_m (moods s))"
  shows "distinct (map dateISO_m (moods (saveMood today s))) \<and>
         (moodSelect_value (el s) \<noteq> [] \<or> trim (reflection_value (el s)) \<noteq> [] \<longrightarrow>
            (today \<in> dateISO_m ` set (moods s) \<longrightarrow>
               (\<exists>i < length (moods s). dateISO_m (moods s ! i) = today \<and>
                  moods (saveMood today s) =
                    (moods s)[i := \<lparr>dateISO_m = today, mood = moodSelect_value (el s),
                                    reflection = trim (reflection_value (el s))\<rparr>]) \<and>
               length (moods (saveMood today s)) = length (moods s)) \<and>
            (today \<notin> dateISO_m ` set (moods s) \<longrightarrow>
               moods (saveMood today s) =
                 moods s @ [\<lparr>dateISO_m = today, mood = moodSelect_value (el s),
                              reflection = trim (reflection_value (el s))\<rparr>] \<and>
               length (moods (saveMood today s)) = length (moods s) + 1)) \<and>
         (moodSelect_value (el s) = [] \<and> trim (reflection_value (el s)) = [] \<longrightarrow>
            moods (saveMood today s) = moods s)"
proof -
  let ?P = "\<lambda>m. dateISO_m m = today"
  let ?idx = "findIndex ?P (moods s)"
  let ?e = "\<lparr>dateISO_m = today, mood = moodSelect_value (el s),
              reflection = trim (reflection_value (el s))\<rparr>"
  have absent: "?idx < 0 \<longleftrightarrow> today \<notin> dateISO_m ` set (moods s)"
    by (auto simp add: findIndex_neg_iff)
  have replaced: "map dateISO_m ((moods s)[nat ?idx := ?e]) = map dateISO_m (moods s)"
    if "0 \<le> ?idx"
  proof -
    from findIndex_found [OF that]
    have "nat ?idx < length (moods s)" and "dateISO_m (moods s ! nat ?idx) = today"
      by simp_all
    then show ?thesis
      by (simp add: map_update list_update_same_conv)
  qed
  have d: "distinct (map dateISO_m (moods (saveMood today s)))"
    using assms absent replaced
    by (auto simp add: moods_saveMood)
  have r: "\<exists>i < length (moods s). dateISO_m (moods s ! i) = today \<and>
             moods (saveMood today s) = (moods s)[i := ?e]"
    if "moodSelect_value (el s) \<noteq> [] \<or> trim (reflection_value (el s)) \<noteq> []"
      and "today \<in> dateISO_m ` set (moods s)"
  proof -
    from that(2) absent have ge: "0 \<le> ?idx" by auto
    from findIndex_found [OF ge] that(1) ge show ?thesis
      by (intro exI [of _ "nat ?idx"]) (auto simp add: moods_saveMood)
  qed
  have a: "moods (saveMood today s) = moods s @ [?e]"
    if "moodSelect_value (el s) \<noteq> [] \<or> trim (reflection_value (el s)) \<noteq> []"
      and "today \<notin> dateISO_m ` set (moods s)"
    using that absent by (auto simp add: moods_saveMood)
  from d r a show ?thesis
    by (auto simp add: moods_saveMood)
qed

theorem saveMood_one_entry_per_date_witness:
  "distinct (map dateISO_m (moods moodState)) \<and>
   moodSelect_value (el moodState) \<noteq> [] \<and>
   length (moods moodState) = 1 \<and>
   length (moods (saveMood (str ''2024-01-02'') moodState)) = 1 \<and>
   moods (saveMood (str ''2024-01-02'') moodState) =
     [\<lparr>dateISO_m = str ''2024-01-02'', mood = str ''good'', reflection = []\<rparr>] \<and>
   length (moods (saveMood (str ''2024-01-03'') moodState)) = 2 \<and>
   distinct (map dateISO_m (moods (saveMood (str ''2024-01-03'') moodState)))"
  using saveMood_one_entry_per_date [of moodState "str ''2024-01-02''"]
    saveMood_one_entry_per_date [of moodState "str ''2024-01-03''"]
  by (simp add: moodState_def freshState_def loggedFields_def str_def trim_def)

section \<open>The timer invariant\<close>

lemma timer_inv_freshState: "timer_inv (freshState today e)"
  by (simp add: timer_inv_def freshState_def)

lemma pauseTimer_inv:
  "timer_inv s \<Longrightarrow> pauseTimer s = s\<lparr>timer := (timer s)\<lparr>running := False\<rparr>, intervals := []\<rparr>"
  by (auto simp add: timer_inv_def pauseTimer_def clearInterval_def Let_def
      split: option.splits if_splits)

lemma timer_inv_pauseTimer: "timer_inv s \<Longrightarrow> timer_inv (pauseTimer s)"
  by (simp add: pauseTimer_inv) (simp add: timer_inv_def)

lemma timer_inv_startTimer: "timer_inv s \<Longrightarrow> timer_inv (startTimer s)"
  by (auto simp add: timer_inv_def startTimer_def setInterval_def Let_def)

lemma timer_inv_resetTimer: "timer_inv s \<Longrightarrow> timer_inv (resetTimer s)"
  using timer_inv_pauseTimer [of s]
  by (simp add: resetTimer_def Let_def timer_inv_def)

lemma timer_inv_awardPoints: "timer_inv (awardPoints n s) = timer_inv s"
  by (simp add: timer_inv_def awardPoints_def set_storage_def Let_def)

lemma timer_inv_toast: "timer_inv (toast m s) = timer_inv s"
  by (simp add: timer_inv_def toast_def)

lemma timer_inv_tick: "timer_inv s \<Longrightarrow> timer_inv (tick s)"
proof -
  assume inv: "timer_inv s"
  define s1 where "s1 = s\<lparr>timer := (timer s)
      \<lparr>remainingSec := Math_max (Num 0) (js_sub (remainingSec (timer s)) (Num 1))\<rparr>\<rparr>"
  from inv have inv1: "timer_inv s1"
    by (simp add: timer_inv_def s1_def)
  have "tick s = (if remainingSec (timer s1) = Num 0
                  then toast TimerDone (awardPoints (Num 5) (pauseTimer s1)) else s1)"
    by (simp add: tick_def Let_def s1_def)
  then show ?thesis
    by (simp add: timer_inv_toast timer_inv_awardPoints timer_inv_pauseTimer inv1)
qed

lemma second_not_running: "timer_inv s \<Longrightarrow> \<not> running (timer s) \<Longrightarrow> second s = s"
  by (simp add: timer_inv_def second_def)

lemma second_running: "timer_inv s \<Longrightarrow> running (timer s) \<Longrightarrow> second s = tick s"
  by (auto simp add: timer_inv_def second_def split: option.splits)

lemma timer_inv_second: "timer_inv s \<Longrightarrow> timer_inv (second s)"
  by (cases "running (timer s)") (simp_all add: second_running second_not_running timer_inv_tick)

lemma timer_inv_logSession: "timer_inv s \<Longrightarrow> timer_inv (logSession today s)"
  by (simp add: logSession_def Let_def timer_inv_toast timer_inv_awardPoints)
     (simp add: timer_inv_def set_storage_def)

lemma timer_inv_saveMood: "timer_inv s \<Longrightarrow> timer_inv (saveMood today s)"
  by (simp add: saveMood_def Let_def timer_inv_toast)
     (simp add: timer_inv_def set_storage_def awardPoints_def Let_def)

lemma timer_inv_maintainStreak: "timer_inv s \<Longrightarrow> timer_inv (maintainStreak today s)"
  by (simp add: maintainStreak_def Let_def timer_inv_def set_storage_def)

lemma reachable_timer_inv: "reachable s \<Longrightarrow> timer_inv s"
proof (induction rule: reachable.induct)
  case (boot s)
  then show ?case by (simp add: timer_inv_def)
next
  case (typed s e)
  then show ?case by (simp add: timer_inv_def)
qed (simp_all add: timer_inv_maintainStreak timer_inv_startTimer timer_inv_pauseTimer
      timer_inv_resetTimer timer_inv_logSession timer_inv_saveMood timer_inv_second)

section \<open>Running the timer\<close>

lemma seconds_add: "seconds (a + b) s = seconds b (seconds a s)"
  by (induction a arbitrary: s) simp_all

lemma seconds_not_running: "timer_inv s \<Longrightarrow> \<not> running (timer s) \<Longrightarrow> seconds k s = s"
  by (induction k) (simp_all add: second_not_running)

lemma tick_counting:
  "remainingSec (timer s) = Num r \<Longrightarrow> 1 < r \<Longrightarrow>
   tick s = s\<lparr>timer := (timer s)\<lparr>remainingSec := Num (r - 1)\<rparr>\<rparr>"
  by (simp add: tick_def Let_def)

lemma tick_completing:
  "timer_inv s \<Longrightarrow> remainingSec (timer s) = Num r \<Longrightarrow> r \<le> 1 \<Longrightarrow> tick s = completed s"
proof -
  assume inv: "timer_inv s" and r: "remainingSec (timer s) = Num r" "r \<le> 1"
  let ?s1 = "s\<lparr>timer := (timer s)\<lparr>remainingSec := Num 0\<rparr>\<rparr>"
  from inv have "timer_inv ?s1" by (simp add: timer_inv_def)
  from pauseTimer_inv [OF this] r show ?thesis
    by (simp add: tick_def Let_def max_def awardPoints_def set_storage_def toast_def completed_def)
qed

lemma seconds_counting:
  "timer_inv s \<Longrightarrow> running (timer s) \<Longrightarrow> remainingSec (timer s) = Num r \<Longrightarrow> int k < r \<Longrightarrow>
   seconds k s = s\<lparr>timer := (timer s)\<lparr>remainingSec := Num (r - int k)\<rparr>\<rparr>"
proof (induction k arbitrary: s r)
  case 0
  then show ?case by simp
next
  case (Suc k)
  let ?s' = "s\<lparr>timer := (timer s)\<lparr>remainingSec := Num (r - 1)\<rparr>\<rparr>"
  from Suc.prems have step: "second s = ?s'"
    by (simp add: second_running tick_counting)
  from Suc.prems have "timer_inv ?s'" "running (timer ?s')"
    by (simp_all add: timer_inv_def)
  from Suc.IH [OF this, of "r - 1"] Suc.prems(4) show ?case
    by (simp add: step algebra_simps)
qed

lemma seconds_completing:
  assumes "timer_inv s" "running (timer s)" "remainingSec (timer s) = Num r" "0 < r" "r \<le> int k"
  shows "seconds k s = completed s"
proof -
  obtain n where n: "r = int (Suc n)"
    using assms(4) by (metis Suc_pred' zero_less_nat_eq int_nat_eq less_imp_le)
  then obtain j where k: "k = n + (1 + j)"
    using assms(5) by (metis add.commute le_Suc_ex of_nat_le_iff plus_1_eq_Suc add.assoc)
  let ?s' = "s\<lparr>timer := (timer s)\<lparr>remainingSec := Num 1\<rparr>\<rparr>"
  have a: "seconds n s = ?s'"
    using seconds_counting [OF assms(1-3), of n] n by simp
  have inv': "timer_inv ?s'" and run': "running (timer ?s')"
    using assms(1,2) by (simp_all add: timer_inv_def)
  have "second ?s' = tick ?s'"
    using inv' run' by (rule second_running)
  also have "\<dots> = completed ?s'"
    using tick_completing [OF inv', of 1] by simp
  also have "\<dots> = completed s"
    by (simp add: completed_def)
  finally have b: "second ?s' = completed s" .
  have c: "timer_inv (completed s)" "\<not> running (timer (completed s))"
    by (simp_all add: timer_inv_def completed_def)
  show ?thesis
    unfolding k seconds_add a by (simp add: b seconds_not_running c)
qed

lemma remainingSec_tick:
  "remainingSec (timer (tick s)) = Math_max (Num 0) (js_sub (remainingSec (timer s)) (Num 1))"
  by (simp add: tick_def Let_def toast_def awardPoints_def set_storage_def timer_pauseTimer)

lemma startTimer_resetTimer:
  assumes "timer_inv s" and "timerMinutes s = Num m" and "0 < m"
  shows "startTimer (resetTimer s) =
           s\<lparr>timer := \<lparr>remainingSec = Num (60 * m), running = True,
                        intervalId = Some (Suc (lastHandle s))\<rparr>,
             intervals := [Suc (lastHandle s)], lastHandle := Suc (lastHandle s)\<rparr>"
proof -
  have "timerMinutes (pauseTimer s) = Num m"
    using assms(2) by (simp add: timerMinutes_def el_pauseTimer)
  then have "resetTimer s =
      s\<lparr>timer := (timer s)\<lparr>running := False, remainingSec := Num (60 * m)\<rparr>, intervals := []\<rparr>"
    using assms(3) by (simp add: resetTimer_def Let_def pauseTimer_inv [OF assms(1)] max_def)
  then show ?thesis
    by (simp add: startTimer_def setInterval_def Let_def)
qed

text \<open>
  C4. Let the timer be configured to \<open>m > 0\<close> minutes (\<open>resetTimer\<close>), started, and left
  alone. Before \<open>60 * m\<close> seconds have passed, after \<open>k\<close> seconds \<open>60 * m - k\<close> seconds
  remain, the timer runs, and no point and no message has been given. From the tick that
  reaches zero on, whatever time passes, zero seconds remain, the timer is paused, no
  interval is scheduled, and the points have grown by 5, once. Every tick sets
  \<open>remainingSec\<close> to \<open>max(0, remainingSec - 1)\<close>.
\<close>

theorem timer_runs_to_completion:
  assumes "timer_inv s" and "timerMinutes s = Num m" and "0 < m"
  shows "(int k < 60 * m \<longrightarrow>
            remainingSec (timer (seconds k (startTimer (resetTimer s)))) = Num (60 * m - int k) \<and>
            running (timer (seconds k (startTimer (resetTimer s)))) \<and>
            intervals (seconds k (startTimer (resetTimer s))) = [Suc (lastHandle s)] \<and>
            points (seconds k (startTimer (resetTimer s))) = points s \<and>
            toasts (seconds k (startTimer (resetTimer s))) = toasts s) \<and>
         (60 * m \<le> int k \<longrightarrow>
            remainingSec (timer (seconds k (startTimer (resetTimer s)))) = Num 0 \<and>
            \<not> running (timer (seconds k (startTimer (resetTimer s)))) \<and>
            intervals (seconds k (startTimer (resetTimer s))) = [] \<and>
            points (seconds k (startTimer (resetTimer s))) = js_add (points s) (Num 5) \<and>
            localStorage (seconds k (startTimer (resetTimer s))) STORAGE_KEYS_points =
              Some (stringify_num (js_add (points s) (Num 5))) \<and>
            toasts (seconds k (startTimer (resetTimer s))) = toasts s @ [TimerDone]) \<and>
         remainingSec (timer (tick t)) =
            Math_max (Num 0) (js_sub (remainingSec (timer t)) (Num 1))"
proof -
  define s0 where "s0 = startTimer (resetTimer s)"
  have s0: "s0 = s\<lparr>timer := \<lparr>remainingSec = Num (60 * m), running = True,
                        intervalId = Some (Suc (lastHandle s))\<rparr>,
             intervals := [Suc (lastHandle s)], lastHandle := Suc (lastHandle s)\<rparr>"
    unfolding s0_def using assms by (rule startTimer_resetTimer)
  have inv: "timer_inv s0" and run: "running (timer s0)"
    and rem: "remainingSec (timer s0) = Num (60 * m)"
    by (simp_all add: s0 timer_inv_def)
  have counting: "seconds k s0 = s0\<lparr>timer := (timer s0)\<lparr>remainingSec := Num (60 * m - int k)\<rparr>\<rparr>"
    if "int k < 60 * m"
    using inv run rem that by (rule seconds_counting)
  have completing: "seconds k s0 = completed s0" if "60 * m \<le> int k"
    using inv run rem _ that by (rule seconds_completing) (use assms(3) in simp)
  show ?thesis
    unfolding s0_def [symmetric]
    by (auto simp add: counting completing remainingSec_tick) (simp_all add: s0 completed_def)
qed

theorem timer_runs_to_completion_witness:
  "timer_inv oneMinuteState \<and> timerMinutes oneMinuteState = Num 1 \<and> (0::int) < 1 \<and>
   points oneMinuteState = Num 0 \<and>
   remainingSec (timer (seconds 59 (startTimer (resetTimer oneMinuteState)))) = Num 1 \<and>
   points (seconds 59 (startTimer (resetTimer oneMinuteState))) = Num 0 \<and>
   running (timer (seconds 59 (startTimer (resetTimer oneMinuteState)))) \<and>
   remainingSec (timer (seconds 60 (startTimer (resetTimer oneMinuteState)))) = Num 0 \<and>
   points (seconds 60 (startTimer (resetTimer oneMinuteState))) = Num 5 \<and>
   \<not> running (timer (seconds 60 (startTimer (resetTimer oneMinuteState)))) \<and>
   points (seconds 3600 (startTimer (resetTimer oneMinuteState))) = Num 5"
proof -
  have h: "timer_inv oneMinuteState" "timerMinutes oneMinuteState = Num 1" "(0::int) < 1"
    by (simp_all add: oneMinuteState_def timer_inv_freshState)
       (simp add: timerMinutes_def freshState_def loggedFields_def string_defs)
  have p: "points oneMinuteState = Num 0"
    by (simp add: oneMinuteState_def freshState_def)
  show ?thesis
    using h p timer_runs_to_completion [OF h, of 59] timer_runs_to_completion [OF h, of 60]
      timer_runs_to_completion [OF h, of 3600]
    by simp
qed

section \<open>Starting the timer at zero\<close>

lemma js_add_Num_0: "js_add p (Num 0) = p"
  by (cases p) simp_all

lemma js_add_assoc_Num: "js_add (js_add p (Num a)) (Num b) = js_add p (Num (a + b))"
  by (cases p) simp_all

lemma second_startTimer_at_zero:
  assumes "timer_inv s" and "\<not> running (timer s)" and "remainingSec (timer s) = Num 0"
  shows "second (startTimer s) =
           completed (s\<lparr>timer := (timer s)\<lparr>intervalId := Some (Suc (lastHandle s))\<rparr>,
                        lastHandle := Suc (lastHandle s)\<rparr>)"
proof -
  let ?s1 = "startTimer s"
  have s1: "?s1 = s\<lparr>timer := (timer s)\<lparr>running := True, intervalId := Some (Suc (lastHandle s))\<rparr>,
                    intervals := [Suc (lastHandle s)], lastHandle := Suc (lastHandle s)\<rparr>"
    using assms by (simp add: startTimer_def setInterval_def Let_def timer_inv_def)
  have inv: "timer_inv ?s1" and run: "running (timer ?s1)"
    and rem: "remainingSec (timer ?s1) = Num 0"
    using assms(3) by (simp_all add: s1 timer_inv_def)
  have "second ?s1 = tick ?s1"
    using inv run by (rule second_running)
  also have "\<dots> = completed ?s1"
    using tick_completing [OF inv rem] by simp
  finally show ?thesis
    by (simp add: s1 completed_def)
qed

text \<open>
  C10. When \<open>startTimer\<close> is called with zero seconds remaining and the timer not running,
  the countdown is scheduled again; its first tick leaves zero seconds, awards 5 points
  again, shows the message again and pauses again. Repeating start and tick \<open>n\<close> times
  awards \<open>5 * n\<close> points.
\<close>

theorem startTimer_at_zero_awards_again:
  assumes "timer_inv s" and "\<not> running (timer s)" and "remainingSec (timer s) = Num 0"
  shows "running (timer (startTimer s)) \<and>
         intervals (startTimer s) = [Suc (lastHandle s)] \<and>
         remainingSec (timer (second (startTimer s))) = Num 0 \<and>
         points (second (startTimer s)) = js_add (points s) (Num 5) \<and>
         toasts (second (startTimer s)) = toasts s @ [TimerDone] \<and>
         \<not> running (timer (second (startTimer s))) \<and>
         intervals (second (startTimer s)) = [] \<and>
         timer_inv (second (startTimer s)) \<and>
         points (((\<lambda>x. second (startTimer x)) ^^ n) s) = js_add (points s) (Num (5 * int n))"
proof -
  have again: "timer_inv x \<and> \<not> running (timer x) \<and> remainingSec (timer x) = Num 0 \<and>
      points x = js_add (points s) (Num (5 * int n))"
    if "x = ((\<lambda>x. second (startTimer x)) ^^ n) s" for x n
    using that
  proof (induction n arbitrary: x)
    case 0
    with assms show ?case by (simp add: js_add_Num_0)
  next
    case (Suc n)
    define y where "y = ((\<lambda>x. second (startTimer x)) ^^ n) s"
    from Suc.IH [OF y_def]
    have y: "timer_inv y" "\<not> running (timer y)" "remainingSec (timer y) = Num 0"
      "points y = js_add (points s) (Num (5 * int n))"
      by simp_all
    have "x = second (startTimer y)"
      using Suc.prems by (simp add: y_def)
    then show ?case
      using y(4)
      by (simp add: second_startTimer_at_zero [OF y(1-3)] completed_def timer_inv_def
          js_add_assoc_Num algebra_simps)
  qed
  have "running (timer (startTimer s)) \<and> intervals (startTimer s) = [Suc (lastHandle s)]"
    using assms by (simp add: startTimer_def setInterval_def Let_def timer_inv_def)
  then show ?thesis
    using again [OF refl, of n]
    by (simp add: second_startTimer_at_zero [OF assms] completed_def timer_inv_def)
qed

theorem startTimer_at_zero_awards_again_witness:
  "timer_inv (finishedState ''25'') \<and> \<not> running (timer (finishedState ''25'')) \<and>
   remainingSec (timer (finishedState ''25'')) = Num 0 \<and>
   points (finishedState ''25'') = Num 0 \<and>
   points (second (startTimer (finishedState ''25''))) = Num 5 \<and>
   points (((\<lambda>x. second (startTimer x)) ^^ 3) (finishedState ''25'')) = Num 15"
proof -
  have h: "timer_inv (finishedState ''25'')" "\<not> running (timer (finishedState ''25''))"
    "remainingSec (timer (finishedState ''25'')) = Num 0"
    by (simp_all add: finishedState_def freshState_def timer_inv_def)
  have p: "points (finishedState ''25'') = Num 0"
    by (simp add: finishedState_def freshState_def)
  show ?thesis
    using h p startTimer_at_zero_awards_again [OF h, of 3]
    by simp
qed

section \<open>The tag totals computed by aggregateTags\<close>

lemma set_firstSeen [simp]: "set (firstSeen xs) = set xs"
  by (induction xs) auto

lemma distinct_firstSeen [simp]: "distinct (firstSeen xs)"
  by (induction xs) auto

lemma enc_cong: "(\<And>k. k \<in> set ks \<Longrightarrow> f k = g k) \<Longrightarrow> enc f ks = enc g ks"
  by (simp add: enc_def)

lemma map_of_enc: "map_of (enc f ks) t = (if t \<in> set ks then Some (VNum (Num (f t))) else None)"
  by (induction ks) (auto simp add: enc_def)

lemma obj_define_enc:
  "distinct ks \<Longrightarrow>
   obj_define t (VNum (Num x)) (enc f ks) = enc (f(t := x)) (if t \<in> set ks then ks else ks @ [t])"
  by (induction ks) (auto simp add: enc_def)

lemma plainTag_not_proto: "plainTag t \<Longrightarrow> t \<noteq> str ''__proto__''"
  by (auto simp add: plainTag_def objectPrototypeNames_def)

lemma addTag_enc:
  assumes "plainTag t" and "distinct ks" and "\<And>k. k \<notin> set ks \<Longrightarrow> f k = 0"
  shows "addTag (Num n) t (enc f ks) =
           enc (f(t := f t + n)) (if t \<in> set ks then ks else ks @ [t])"
proof -
  have get: "plusNum (orZero (obj_get (enc f ks) t)) (Num n) = VNum (Num (f t + n))"
    using assms(1,3) by (simp add: obj_get_def map_of_enc orZero_def plainTag_def)
  have "addTag (Num n) t (enc f ks) = obj_define t (VNum (Num (f t + n))) (enc f ks)"
    unfolding addTag_def get using plainTag_not_proto [OF assms(1)] by (simp add: obj_set_def)
  then show ?thesis
    using assms(2) by (simp add: obj_define_enc)
qed

lemma psum_Cons: "psum (p # ps) k = (if fst p = k then snd p else 0) + psum ps k"
  by (simp add: psum_def)

lemma fold_addTag_enc:
  assumes "\<forall>p \<in> set ps. plainTag (fst p)" and "distinct ks" and "\<forall>k. k \<notin> set ks \<longrightarrow> f k = 0"
  shows "fold (\<lambda>p. addTag (Num (snd p)) (fst p)) ps (enc f ks) =
           enc (\<lambda>k. f k + psum ps k)
             (ks @ filter (\<lambda>k. k \<notin> set ks) (firstSeen (map fst ps)))"
  using assms
proof (induction ps arbitrary: f ks)
  case Nil
  then show ?case by (simp add: psum_def)
next
  case (Cons p ps)
  obtain t n where p: "p = (t, n)" by (cases p)
  let ?f = "f(t := f t + n)"
  let ?ks = "if t \<in> set ks then ks else ks @ [t]"
  have plain: "plainTag t" using Cons.prems(1) p by simp
  have step: "addTag (Num n) t (enc f ks) = enc ?f ?ks"
    using plain Cons.prems(2,3) by (intro addTag_enc) auto
  have d: "distinct ?ks" using Cons.prems(2) by simp
  have z: "\<forall>k. k \<notin> set ?ks \<longrightarrow> ?f k = 0" using Cons.prems(3) by auto
  have rest: "\<forall>p \<in> set ps. plainTag (fst p)" using Cons.prems(1) by simp
  have keys: "?ks @ filter (\<lambda>k. k \<notin> set ?ks) (firstSeen (map fst ps)) =
      ks @ filter (\<lambda>k. k \<notin> set ks) (firstSeen (map fst (p # ps)))"
    by (auto simp add: p intro: filter_cong)
  have "fold (\<lambda>p. addTag (Num (snd p)) (fst p)) (p # ps) (enc f ks) =
      fold (\<lambda>p. addTag (Num (snd p)) (fst p)) ps (enc ?f ?ks)"
    by (simp add: p step)
  also have "\<dots> = enc (\<lambda>k. ?f k + psum ps k)
      (?ks @ filter (\<lambda>k. k \<notin> set ?ks) (firstSeen (map fst ps)))"
    using rest d z by (rule Cons.IH)
  also have "\<dots> = enc (\<lambda>k. ?f k + psum ps k)
      (ks @ filter (\<lambda>k. k \<notin> set ks) (firstSeen (map fst (p # ps))))"
    by (simp only: keys)
  also have "\<dots> = enc (\<lambda>k. f k + psum (p # ps) k)
      (ks @ filter (\<lambda>k. k \<notin> set ks) (firstSeen (map fst (p # ps))))"
    by (rule enc_cong) (simp add: psum_Cons p)
  finally show ?case .
qed

lemma fold_sessions_ipairs:
  assumes "\<forall>s \<in> set ss. minutes s \<noteq> NaN"
  shows "fold (\<lambda>s m. fold (addTag (minutes s)) (tags s) m) ss m0 =
           fold (\<lambda>p. addTag (Num (snd p)) (fst p)) (ipairs ss) m0"
  using assms
proof (induction ss arbitrary: m0)
  case Nil
  then show ?case by (simp add: ipairs_def)
next
  case (Cons s ss)
  from Cons.prems obtain n where n: "minutes s = Num n"
    by (cases "minutes s") auto
  have inner: "fold (addTag (minutes s)) (tags s) m0 =
      fold (\<lambda>p. addTag (Num (snd p)) (fst p)) (map (\<lambda>t. (t, minutesInt s)) (tags s)) m0"
    by (simp add: fold_map comp_def minutesInt_def n)
  have "ipairs (s # ss) = map (\<lambda>t. (t, minutesInt s)) (tags s) @ ipairs ss"
    by (simp add: ipairs_def)
  then show ?case
    using Cons.IH [of "fold (addTag (minutes s)) (tags s) m0"] Cons.prems
    by (simp add: inner)
qed

lemma map_fst_ipairs: "map fst (ipairs ss) = concat (map tags ss)"
  by (induction ss) (simp_all add: ipairs_def comp_def)

lemma psum_append: "psum (ps @ qs) k = psum ps k + psum qs k"
  by (simp add: psum_def)

lemma psum_tags: "psum (map (\<lambda>t. (t, n)) ts) k = int (count_list ts k) * n"
  by (induction ts) (simp_all add: psum_def algebra_simps)

lemma psum_ipairs: "psum (ipairs ss) k = occurrenceTotal ss k"
proof (induction ss)
  case Nil
  then show ?case by (simp add: ipairs_def psum_def occurrenceTotal_def)
next
  case (Cons s ss)
  have "ipairs (s # ss) = map (\<lambda>t. (t, minutesInt s)) (tags s) @ ipairs ss"
    by (simp add: ipairs_def)
  then show ?case
    using Cons.IH by (simp add: psum_append psum_tags occurrenceTotal_def)
qed

lemma tagMap_enc:
  assumes "\<forall>s \<in> set ss. minutes s \<noteq> NaN"
    and "\<forall>s \<in> set ss. \<forall>t \<in> set (tags s). plainTag t"
  shows "tagMap ss = enc (occurrenceTotal ss) (firstSeen (concat (map tags ss)))"
proof -
  have plain: "\<forall>p \<in> set (ipairs ss). plainTag (fst p)"
    using assms(2) by (auto simp add: ipairs_def)
  have "tagMap ss = fold (\<lambda>p. addTag (Num (snd p)) (fst p)) (ipairs ss) (enc (\<lambda>_. 0) [])"
    unfolding tagMap_def using assms(1) by (simp add: fold_sessions_ipairs enc_def)
  also have "\<dots> = enc (\<lambda>k. 0 + psum (ipairs ss) k)
      ([] @ filter (\<lambda>k. k \<notin> set []) (firstSeen (map fst (ipairs ss))))"
    using plain by (intro fold_addTag_enc) simp_all
  finally show ?thesis
    by (simp add: map_fst_ipairs psum_ipairs [abs_def])
qed

lemma Object_entries_enc:
  "\<forall>k \<in> set ks. plainTag k \<Longrightarrow> Object_entries (enc f ks) = enc f ks"
proof -
  assume a: "\<forall>k \<in> set ks. plainTag k"
  then have "filter (\<lambda>e. arrayIndex (fst e) \<noteq> None) (enc f ks) = []"
    and "filter (\<lambda>e. arrayIndex (fst e) = None) (enc f ks) = enc f ks"
    by (auto simp add: enc_def plainTag_def filter_empty_conv filter_id_conv)
  then show ?thesis
    by (simp add: Object_entries_def)
qed

lemma insertBy_enc:
  "insertBy (\<lambda>a b. js_sub (toNumber (snd b)) (toNumber (snd a))) (k, VNum (Num (f k))) (enc f ks) =
     enc f (insort_key (\<lambda>k. - f k) k ks)"
  by (induction ks) (simp_all add: enc_def notAfter_def)

lemma Array_sort_enc:
  "Array_sort (\<lambda>a b. js_sub (toNumber (snd b)) (toNumber (snd a))) (enc f ks) =
     enc f (sort_key (\<lambda>k. - f k) ks)"
proof (induction ks)
  case Nil
  then show ?case by (simp add: Array_sort_def enc_def)
next
  case (Cons k ks)
  have "Array_sort (\<lambda>a b. js_sub (toNumber (snd b)) (toNumber (snd a))) (enc f (k # ks)) =
      insertBy (\<lambda>a b. js_sub (toNumber (snd b)) (toNumber (snd a))) (k, VNum (Num (f k)))
        (Array_sort (\<lambda>a b. js_sub (toNumber (snd b)) (toNumber (snd a))) (enc f ks))"
    by (simp add: Array_sort_def enc_def)
  then show ?case
    by (simp add: Cons.IH insertBy_enc)
qed

lemma slice0_enc: "0 \<le> limit \<Longrightarrow> slice0 limit (enc f ks) = enc f (take (nat limit) ks)"
  by (simp add: slice0_def Let_def enc_def take_map min_def)

lemma obj_define_fresh: "k \<notin> fst ` set m \<Longrightarrow> obj_define k v m = m @ [(k, v)]"
  by (induction m) auto

lemma fold_obj_define:
  "distinct (map fst (m @ es)) \<Longrightarrow>
   fold (\<lambda>e m. obj_define (fst e) (snd e) m) es m = m @ es"
proof (induction es arbitrary: m)
  case Nil
  then show ?case by simp
next
  case (Cons e es)
  from Cons.prems have fresh: "fst e \<notin> fst ` set m" by auto
  from Cons.prems have "distinct (map fst ((m @ [e]) @ es))" by simp
  from Cons.IH [OF this] fresh show ?case
    by (simp add: obj_define_fresh)
qed

lemma Object_fromEntries_enc: "distinct ks \<Longrightarrow> Object_fromEntries (enc f ks) = enc f ks"
  using fold_obj_define [of "[]" "enc f ks"]
  by (simp add: Object_fromEntries_def enc_def comp_def)

lemma count_list_distinct: "distinct xs \<Longrightarrow> count_list xs x = (if x \<in> set xs then 1 else 0)"
  by (induction xs) auto

lemma occurrenceTotal_distinct:
  "\<forall>s \<in> set ss. distinct (tags s) \<Longrightarrow> occurrenceTotal ss t = containingTotal ss t"
  by (induction ss) (simp_all add: occurrenceTotal_def containingTotal_def count_list_distinct)

text \<open>
  The order of \<open>ranked\<close> before it is cut: descending totals, ties in the order of the
  input, the same tags.
\<close>

lemma ranking_sorted_stable:
  fixes tot :: "'a \<Rightarrow> int"
  shows "sorted (map (\<lambda>t. - tot t) (sort_key (\<lambda>t. - tot t) ts)) \<and>
   filter (\<lambda>t. tot t = v) (sort_key (\<lambda>t. - tot t) ts) = filter (\<lambda>t. tot t = v) ts \<and>
   set (sort_key (\<lambda>t. - tot t) ts) = set ts"
  using sort_key_stable [of "\<lambda>t. - tot t" "- v" ts] by (simp add: sorted_sort_key)

lemmas tag_defs = taggedSession_def tagMap_def addTag_def obj_get_def obj_set_def orZero_def
  objectPrototypeNames_def Object_entries_def Object_fromEntries_def Array_sort_def notAfter_def
  slice0_def arrayIndex_def

text \<open>
  C9, as stated, fails on the code. One session of 30 minutes with the tags \<open>b\<close> and \<open>1\<close>,
  in this order, and \<open>limit = 1\<close>: both tags total 30 and \<open>b\<close> is encountered first, but
  \<open>Object.entries\<close> lists the array index \<open>1\<close> first, the stable sort keeps it there,
  and the result holds \<open>1\<close> alone.
\<close>

theorem aggregateTags_index_tag_counterexample:
  "Object_entries (aggregateTags 1 [taggedSession 30 [''b'', ''1'']]) =
     [(str ''1'', VNum (Num 30))] \<and>
   ranked (containingTotal [taggedSession 30 [''b'', ''1'']]) 1 [taggedSession 30 [''b'', ''1'']] =
     [(str ''b'', VNum (Num 30))] \<and>
   Object_entries (aggregateTags 1 [taggedSession 30 [''b'', ''1'']]) \<noteq>
     ranked (containingTotal [taggedSession 30 [''b'', ''1'']]) 1 [taggedSession 30 [''b'', ''1'']]"
  by (simp add: aggregateTags_def tag_defs ranked_def containingTotal_def minutesInt_def
      str_def isDigit_def digitsVal_def)

text \<open>
  C9, amended. For sessions whose minutes are numbers and whose tags are plain (no array
  index, no name of a member of \<open>Object.prototype\<close>), and a limit \<open>\<ge> 0\<close>,
  \<open>aggregateTags(limit)\<close> maps each tag to the sum of the full minutes of the sessions,
  one for each occurrence of the tag in a session's tags (minutes are not divided among
  tags), and lists the tags by descending total, ties in first-encountered order, cut to
  the first \<open>limit\<close>. Where no session repeats a tag, the total of a tag is the sum of the
  minutes of the sessions whose tags contain it. One session of 30 minutes with the tags
  \<open>a\<close> and \<open>b\<close> gives \<open>a: 30, b: 30\<close>.
\<close>

theorem aggregateTags_ranked:
  assumes "\<forall>s \<in> set ss. minutes s \<noteq> NaN"
    and "\<forall>s \<in> set ss. \<forall>t \<in> set (tags s). plainTag t"
    and "0 \<le> limit"
  shows "aggregateTags limit ss = ranked (occurrenceTotal ss) limit ss \<and>
         Object_entries (aggregateTags limit ss) = ranked (occurrenceTotal ss) limit ss \<and>
         ((\<forall>s \<in> set ss. distinct (tags s)) \<longrightarrow>
            Object_entries (aggregateTags limit ss) = ranked (containingTotal ss) limit ss)"
proof -
  let ?all = "firstSeen (concat (map tags ss))"
  let ?top = "take (nat limit) (sort_key (\<lambda>t. - occurrenceTotal ss t) ?all)"
  have plain_all: "\<forall>k \<in> set ?all. plainTag k"
    using assms(2) by auto
  have sub: "set ?top \<subseteq> set ?all"
    using set_take_subset [of "nat limit" "sort_key (\<lambda>t. - occurrenceTotal ss t) ?all"] by simp
  have plain_top: "\<forall>k \<in> set ?top. plainTag k"
    using plain_all sub by blast
  have distinct_top: "distinct ?top"
    by simp
  have "aggregateTags limit ss = Object_fromEntries (enc (occurrenceTotal ss) ?top)"
    unfolding aggregateTags_def Let_def tagMap_enc [OF assms(1,2)]
      Object_entries_enc [OF plain_all] Array_sort_enc slice0_enc [OF assms(3)] ..
  then have agg: "aggregateTags limit ss = enc (occurrenceTotal ss) ?top"
    using distinct_top by (simp only: Object_fromEntries_enc)
  have r: "enc (occurrenceTotal ss) ?top = ranked (occurrenceTotal ss) limit ss"
    by (simp add: enc_def ranked_def)
  have ent: "Object_entries (aggregateTags limit ss) = ranked (occurrenceTotal ss) limit ss"
    using Object_entries_enc [OF plain_top, of "occurrenceTotal ss"] by (simp only: agg r)
  have "occurrenceTotal ss = containingTotal ss" if "\<forall>s \<in> set ss. distinct (tags s)"
    using occurrenceTotal_distinct [OF that] by (intro ext)
  with agg r ent show ?thesis
    by auto
qed

theorem aggregateTags_ranked_witness:
  "minutes (taggedSession 30 [''a'', ''b'']) \<noteq> NaN \<and>
   tags (taggedSession 30 [''a'', ''b'']) = [str ''a'', str ''b''] \<and>
   plainTag (str ''a'') \<and> plainTag (str ''b'') \<and> (0::int) \<le> 8 \<and>
   Object_entries (aggregateTags 8 [taggedSession 30 [''a'', ''b'']]) =
     [(str ''a'', VNum (Num 30)), (str ''b'', VNum (Num 30))]"
proof -
  have p: "plainTag (str ''a'')" "plainTag (str ''b'')"
    by (simp_all add: plainTag_def arrayIndex_def objectPrototypeNames_def str_def isDigit_def)
  have h: "\<forall>s \<in> set [taggedSession 30 [''a'', ''b'']]. minutes s \<noteq> NaN"
    "\<forall>s \<in> set [taggedSession 30 [''a'', ''b'']]. \<forall>t \<in> set (tags s). plainTag t"
    "(0::int) \<le> 8"
    using p by (simp_all add: taggedSession_def)
  have r: "ranked (occurrenceTotal [taggedSession 30 [''a'', ''b'']]) 8
      [taggedSession 30 [''a'', ''b'']] = [(str ''a'', VNum (Num 30)), (str ''b'', VNum (Num 30))]"
    by (simp add: ranked_def occurrenceTotal_def taggedSession_def minutesInt_def str_def)
  have "Object_entries (aggregateTags 8 [taggedSession 30 [''a'', ''b'']]) =
      [(str ''a'', VNum (Num 30)), (str ''b'', VNum (Num 30))]"
    using aggregateTags_ranked [OF h, THEN conjunct2, THEN conjunct1] by (simp only: r)
  then show ?thesis
    using p by (simp add: taggedSession_def)
qed

end
